theory Spec2Isabelle
  imports Main
begin

section \<open>Data model (models/Car.ts, models/Reservation.ts, models/Statistics.ts)\<close>

text \<open>
  An \<open>ObjectId\<close> is an opaque identity; only equality on it is used.  A JavaScript
  \<open>Date\<close> is the number of milliseconds since the epoch (UTC).  The \<open>Number\<close> fields
  (\<open>dailyRate\<close>, \<open>totalCost\<close>, \<open>revenue\<close>) are only copied by the code under study, never
  computed with.  The \<open>createdAt\<close>/\<open>updatedAt\<close> stamps that the schemas add are not part
  of the model.

  A car document can be written by \<open>findByIdAndUpdate\<close> (the car's \<open>PUT\<close> route), which
  does not run the schema's validators, so a stored car may break the schema: a
  \<open>String\<close> path holds whatever string was stored (absent or \<open>null\<close> is the empty string
  here), \<open>dailyRate\<close> may be \<open>null\<close> (\<open>None\<close>).  The \<open>status\<close> of a car is kept as one of
  the schema's four values: the code compares it with \<open>'available'\<close> and overwrites it
  before every \<open>save\<close>, so any other stored value behaves like a value that is not
  \<open>available\<close>.  Reservations and statistics are written by \<open>save\<close> and \<open>deleteOne\<close> only,
  so their documents always pass their schemas, whose validators hold for every record
  of the types below.
\<close>

type_synonym oid = nat
type_synonym Date = int
type_synonym Number = int

datatype CarStatus = Available | Reserved | Maintenance | Rented
datatype ReservationStatus = Pending | Confirmed | Cancelled | Completed
datatype PaymentStatus = PayPending | PayConfirmed | PayCancelled

record Car =
  car_id :: oid
  car_make :: string
  carModel :: string
  year :: string
  car_status :: CarStatus
  dailyRate :: "Number option"
  imageUrl :: string
  description :: string
  fuelType :: string
  transmission :: string
  mileage :: string
  vehicleSize :: string

record Reservation =
  res_id :: oid
  carId :: oid
  userId :: oid
  startDate :: Date
  endDate :: Date
  res_status :: ReservationStatus
  totalCost :: Number

record Statistics =
  stat_id :: oid
  date :: Date
  revenue :: Number
  paymentStatus :: PaymentStatus
  reservationId :: oid

text \<open>
  The entity store: one list of documents per collection, in natural (insertion) order.
  \<open>writes\<close> counts the write calls (\<open>save\<close>, \<open>deleteOne\<close>) that the code has made and
  that did not reject, so that "no write occurred" can be told apart from "the same
  values were written again".
\<close>

record store =
  cars :: "Car list"
  reservations :: "Reservation list"
  statistics :: "Statistics list"
  writes :: nat

section \<open>Store operations\<close>

text \<open>\<open>findOne\<close>/\<open>findById\<close> return the first matching document, or nothing.\<close>

definition findOne :: "('a \<Rightarrow> bool) \<Rightarrow> 'a list \<Rightarrow> 'a option" where
  "findOne p xs = List.find p xs"

text \<open>
  \<open>doc.save()\<close> on a loaded document sends \<open>updateOne({_id}, {$set: modified paths})\<close>:
  the first document that matches is changed, the others stay.
\<close>

fun updateOne :: "('a \<Rightarrow> bool) \<Rightarrow> ('a \<Rightarrow> 'a) \<Rightarrow> 'a list \<Rightarrow> 'a list" where
  "updateOne p g [] = []"
| "updateOne p g (x # xs) = (if p x then g x # xs else x # updateOne p g xs)"

text \<open>\<open>deleteOne\<close> removes the first matching document; \<open>deletedCount\<close> is 0 or 1.\<close>

fun deleteOne :: "('a \<Rightarrow> bool) \<Rightarrow> 'a list \<Rightarrow> 'a list" where
  "deleteOne p [] = []"
| "deleteOne p (x # xs) = (if p x then xs else x # deleteOne p xs)"

definition deletedCount :: "('a \<Rightarrow> bool) \<Rightarrow> 'a list \<Rightarrow> nat" where
  "deletedCount p xs = (case List.find p xs of None \<Rightarrow> 0 | Some _ \<Rightarrow> 1)"

text \<open>
  \<open>new Reservation(...)\<close> and \<open>new Statistics(...)\<close> draw a new \<open>ObjectId\<close>; the model
  takes an identity that no document of the collection carries.
\<close>

definition new_oid :: "oid list \<Rightarrow> oid" where
  "new_oid ids = Suc (foldr max ids 0)"

definition Car_findById :: "oid \<Rightarrow> store \<Rightarrow> Car option" where
  "Car_findById k s = findOne (\<lambda>d. car_id d = k) (cars s)"

definition Reservation_findById :: "oid \<Rightarrow> store \<Rightarrow> Reservation option" where
  "Reservation_findById k s = findOne (\<lambda>d. res_id d = k) (reservations s)"

definition Statistics_findOne :: "oid \<Rightarrow> store \<Rightarrow> Statistics option" where
  "Statistics_findOne rid s = findOne (\<lambda>d. reservationId d = rid) (statistics s)"

text \<open>The update that a \<open>save\<close> sends once the document has passed validation.\<close>

definition Car_set_status :: "oid \<Rightarrow> CarStatus \<Rightarrow> store \<Rightarrow> store" where
  "Car_set_status k v s =
     s\<lparr>cars := updateOne (\<lambda>d. car_id d = k) (\<lambda>d. d\<lparr>car_status := v\<rparr>) (cars s),
       writes := Suc (writes s)\<rparr>"

definition Reservation_save_status :: "oid \<Rightarrow> ReservationStatus \<Rightarrow> store \<Rightarrow> store" where
  "Reservation_save_status k v s =
     s\<lparr>reservations := updateOne (\<lambda>d. res_id d = k) (\<lambda>d. d\<lparr>res_status := v\<rparr>) (reservations s),
       writes := Suc (writes s)\<rparr>"

definition Statistics_save_paymentStatus :: "oid \<Rightarrow> PaymentStatus \<Rightarrow> store \<Rightarrow> store" where
  "Statistics_save_paymentStatus k v s =
     s\<lparr>statistics := updateOne (\<lambda>d. stat_id d = k) (\<lambda>d. d\<lparr>paymentStatus := v\<rparr>) (statistics s),
       writes := Suc (writes s)\<rparr>"

definition Reservation_insert :: "Reservation \<Rightarrow> store \<Rightarrow> store" where
  "Reservation_insert r s = s\<lparr>reservations := reservations s @ [r], writes := Suc (writes s)\<rparr>"

definition Statistics_insert :: "Statistics \<Rightarrow> store \<Rightarrow> store" where
  "Statistics_insert x s = s\<lparr>statistics := statistics s @ [x], writes := Suc (writes s)\<rparr>"

definition Reservation_deleteOne :: "oid \<Rightarrow> store \<Rightarrow> store" where
  "Reservation_deleteOne k s =
     s\<lparr>reservations := deleteOne (\<lambda>d. res_id d = k) (reservations s), writes := Suc (writes s)\<rparr>"

definition Statistics_deleteOne :: "oid \<Rightarrow> store \<Rightarrow> store" where
  "Statistics_deleteOne rid s =
     s\<lparr>statistics := deleteOne (\<lambda>d. reservationId d = rid) (statistics s), writes := Suc (writes s)\<rparr>"

text \<open>
  Every awaited store call may reject for reasons outside the program.  A value of type
  \<open>faults\<close> says, for one run of a handler (one request, or one iteration of the job's
  loop), which of its store calls reject in that way and with which message; each handler
  makes each kind of call at most once.  A rejection that the stored data decides, the
  validation done by \<open>save\<close>, is not a fault: the model computes it.
\<close>

datatype store_call =
    CarFindById | CarSave
  | ReservationFindById | ReservationFind | ReservationSave | ReservationDeleteOne
  | StatisticsFindOne | StatisticsSave | StatisticsDeleteOne

type_synonym faults = "store_call \<Rightarrow> string option"

definition no_faults :: faults where
  "no_faults = (\<lambda>c. None)"

text \<open>
  The validators of \<open>CarSchema\<close>: \<open>required\<close> on every path but \<open>status\<close> (an empty string
  does not pass it) and \<open>enum\<close> on \<open>fuelType\<close>, \<open>transmission\<close> and \<open>vehicleSize\<close>.  The
  \<open>enum\<close> on \<open>status\<close> holds by the type of \<open>car_status\<close>.
\<close>

definition CarSchema_valid :: "Car \<Rightarrow> bool" where
  "CarSchema_valid car \<longleftrightarrow>
     car_make car \<noteq> [] \<and> carModel car \<noteq> [] \<and> year car \<noteq> [] \<and> dailyRate car \<noteq> None \<and>
     imageUrl car \<noteq> [] \<and> description car \<noteq> [] \<and>
     fuelType car \<in> set [''electric'', ''hybrid'', ''diesel'', ''petrol''] \<and>
     transmission car \<in> set [''automatic'', ''manual''] \<and>
     mileage car \<noteq> [] \<and>
     vehicleSize car \<in> set [''small'', ''medium'', ''large'']"

text \<open>
  \<open>car.save()\<close> on a loaded car whose \<open>status\<close> has been assigned: the whole document
  is validated first, and a document that breaks the schema makes \<open>save\<close> reject with a
  \<open>ValidationError\<close> (its message is cut down to its first words here) before anything
  is sent to the store.
\<close>

definition Car_save :: "faults \<Rightarrow> Car \<Rightarrow> store \<Rightarrow> string + store" where
  "Car_save f car s =
     (if \<not> CarSchema_valid car then Inl ''Car validation failed''
      else case f CarSave of
             Some err \<Rightarrow> Inl err
           | None \<Rightarrow> Inr (Car_set_status (car_id car) (car_status car) s))"

text \<open>The identifiers of a store are unique per collection (the \<open>_id\<close> index).\<close>

definition unique_ids :: "store \<Rightarrow> bool" where
  "unique_ids s \<longleftrightarrow>
     distinct (map car_id (cars s)) \<and> distinct (map res_id (reservations s)) \<and>
     distinct (map stat_id (statistics s))"

section \<open>HTTP responses\<close>

datatype body = Error string | Message string Reservation

datatype response = Response (status: nat) (body: body)

section \<open>routes/reservationRoutes.ts\<close>

text \<open>
  The handlers are modelled behind \<open>authenticate\<close> and \<open>isAdmin\<close>, with a request body
  that already has the schema's types.
\<close>

text \<open>
  \<open>new Date(startDate).toISOString().split('T')[0]\<close>, cast back to a \<open>Date\<close> by the
  Statistics schema: midnight (UTC) of the day of \<open>startDate\<close>.
\<close>

definition msPerDay :: int where
  "msPerDay = 86400000"

definition reservationDate :: "Date \<Rightarrow> Date" where
  "reservationDate startDate' = (startDate' div msPerDay) * msPerDay"

text \<open>\<open>router.post('/')\<close>\<close>

definition create :: "faults \<Rightarrow> oid \<Rightarrow> oid \<Rightarrow> Date \<Rightarrow> Date \<Rightarrow> Number \<Rightarrow> store \<Rightarrow> response \<times> store" where
  "create f userId' carId' startDate' endDate' totalCost' s =
    (case f CarFindById of Some err \<Rightarrow> (Response 400 (Error err), s) | None \<Rightarrow>
     (case Car_findById carId' s of
        None \<Rightarrow> (Response 404 (Error ''Car not found!''), s)
      | Some car \<Rightarrow>
         (let newReservation =
                \<lparr>res_id = new_oid (map res_id (reservations s)), carId = carId', userId = userId',
                 startDate = startDate', endDate = endDate', res_status = Pending,
                 totalCost = totalCost'\<rparr>
          in case f ReservationSave of Some err \<Rightarrow> (Response 400 (Error err), s) | None \<Rightarrow>
            (let s1 = Reservation_insert newReservation s;
                 newStats =
                   \<lparr>stat_id = new_oid (map stat_id (statistics s1)),
                    date = reservationDate startDate', revenue = totalCost',
                    paymentStatus = PayPending, reservationId = res_id newReservation\<rparr>
             in case f StatisticsSave of Some err \<Rightarrow> (Response 400 (Error err), s1) | None \<Rightarrow>
               (Response 201
                  (Message ''Reservation request created successfully. Waiting for admin approval.''
                     newReservation),
                Statistics_insert newStats s1)))))"

text \<open>\<open>router.patch('/:id/approve')\<close>\<close>

definition approve :: "faults \<Rightarrow> oid \<Rightarrow> store \<Rightarrow> response \<times> store" where
  "approve f id' s =
    (case f ReservationFindById of Some err \<Rightarrow> (Response 500 (Error err), s) | None \<Rightarrow>
     (case Reservation_findById id' s of
        None \<Rightarrow> (Response 404 (Error ''Reservation not found''), s)
      | Some reservation \<Rightarrow>
         if res_status reservation \<noteq> Pending
         then (Response 400 (Error ''Only pending reservations can be approved''), s)
         else
          (case f CarFindById of Some err \<Rightarrow> (Response 500 (Error err), s) | None \<Rightarrow>
           (case Car_findById (carId reservation) s of
              None \<Rightarrow> (Response 404 (Error ''Car not found!''), s)
            | Some car \<Rightarrow>
               if car_status car \<noteq> Available
               then (Response 400 (Error ''Car is not available!''), s)
               else
                (case f ReservationSave of Some err \<Rightarrow> (Response 500 (Error err), s) | None \<Rightarrow>
                 (let s1 = Reservation_save_status (res_id reservation) Confirmed s in
                  case f StatisticsFindOne of Some err \<Rightarrow> (Response 500 (Error err), s1) | None \<Rightarrow>
                  (case (case Statistics_findOne (res_id reservation) s1 of
                           None \<Rightarrow> (None, s1)
                         | Some statistics' \<Rightarrow>
                            (case f StatisticsSave of Some err \<Rightarrow> (Some err, s1) | None \<Rightarrow>
                               (None, Statistics_save_paymentStatus (stat_id statistics') PayConfirmed s1)))
                   of (Some err, s2) \<Rightarrow> (Response 500 (Error err), s2)
                    | (None, s2) \<Rightarrow>
                       (case Car_save f (car\<lparr>car_status := Reserved\<rparr>) s2 of
                          Inl err \<Rightarrow> (Response 500 (Error err), s2)
                        | Inr s3 \<Rightarrow>
                           (Response 200
                              (Message ''Reservation approved successfully''
                                 (reservation\<lparr>res_status := Confirmed\<rparr>)),
                            s3)))))))))"

text \<open>\<open>router.patch('/:id/reject')\<close>\<close>

definition reject :: "faults \<Rightarrow> oid \<Rightarrow> store \<Rightarrow> response \<times> store" where
  "reject f id' s =
    (case f ReservationFindById of Some err \<Rightarrow> (Response 500 (Error err), s) | None \<Rightarrow>
     (case Reservation_findById id' s of
        None \<Rightarrow> (Response 404 (Error ''Reservation not found''), s)
      | Some reservation \<Rightarrow>
         if res_status reservation \<noteq> Pending
         then (Response 400 (Error ''Only pending reservations can be rejected''), s)
         else
          (case f ReservationSave of Some err \<Rightarrow> (Response 500 (Error err), s) | None \<Rightarrow>
           (let s1 = Reservation_save_status (res_id reservation) Cancelled s in
            case f ReservationDeleteOne of Some err \<Rightarrow> (Response 500 (Error err), s1) | None \<Rightarrow>
            (let s2 = Reservation_deleteOne (res_id reservation) s1 in
             case f StatisticsDeleteOne of Some err \<Rightarrow> (Response 500 (Error err), s2) | None \<Rightarrow>
             (let n = deletedCount (\<lambda>d. reservationId d = res_id reservation) (statistics s2);
                  s3 = Statistics_deleteOne (res_id reservation) s2
              in if n = 0
                 then (Response 404 (Error ''No statistics found for this reservation''), s3)
                 else (Response 200
                         (Message ''Reservation rejected successfully''
                            (reservation\<lparr>res_status := Cancelled\<rparr>)),
                       s3)))))))"

section \<open>cronJobs.ts\<close>

text \<open>The two queries of the job.\<close>

definition expired :: "Date \<Rightarrow> Reservation \<Rightarrow> bool" where
  "expired now r \<longleftrightarrow> endDate r < now \<and> res_status r = Confirmed"

definition overlapping :: "oid \<Rightarrow> Date \<Rightarrow> Reservation \<Rightarrow> bool" where
  "overlapping k now r \<longleftrightarrow> carId r = k \<and> startDate r \<le> now \<and> now \<le> endDate r"

text \<open>
  The part of the loop body that deals with the car (\<open>Car.findById\<close> down to the end of
  \<open>if (car)\<close>).  The result is the error thrown, if any, and the store at that moment.
\<close>

definition releaseCar :: "faults \<Rightarrow> Date \<Rightarrow> Reservation \<Rightarrow> store \<Rightarrow> string option \<times> store" where
  "releaseCar g now reservation s =
    (case g CarFindById of Some err \<Rightarrow> (Some err, s) | None \<Rightarrow>
     (case Car_findById (carId reservation) s of
        None \<Rightarrow> (None, s)
      | Some car \<Rightarrow>
         (case g ReservationFind of Some err \<Rightarrow> (Some err, s) | None \<Rightarrow>
          (let overlappingReservations = filter (overlapping (car_id car) now) (reservations s) in
           if length overlappingReservations = 0
           then (case Car_save g (car\<lparr>car_status := Available\<rparr>) s of
                   Inl err \<Rightarrow> (Some err, s)
                 | Inr s1 \<Rightarrow> (None, s1))
           else (None, s)))))"

text \<open>One iteration of \<open>for (const reservation of reservations)\<close>.\<close>

definition processReservation :: "faults \<Rightarrow> Date \<Rightarrow> Reservation \<Rightarrow> store \<Rightarrow> string option \<times> store" where
  "processReservation g now reservation s =
    (case releaseCar g now reservation s of
       (Some err, s1) \<Rightarrow> (Some err, s1)
     | (None, s1) \<Rightarrow>
        (case g ReservationSave of Some err \<Rightarrow> (Some err, s1) | None \<Rightarrow>
           (None, Reservation_save_status (res_id reservation) Completed s1)))"

text \<open>
  The loop: a thrown error leaves it at once.  \<open>G\<close> gives the faults of the iteration
  that handles the reservation with a given identity.
\<close>

fun forEach :: "(oid \<Rightarrow> faults) \<Rightarrow> Date \<Rightarrow> Reservation list \<Rightarrow> store \<Rightarrow> string option \<times> store" where
  "forEach G now [] s = (None, s)"
| "forEach G now (reservation # rest) s =
    (case processReservation (G (res_id reservation)) now reservation s of
       (Some err, s1) \<Rightarrow> (Some err, s1)
     | (None, s1) \<Rightarrow> forEach G now rest s1)"

text \<open>
  The scheduled callback, run at time \<open>now\<close>: the \<open>try\<close> block around the query and the
  whole loop, and the \<open>catch\<close> that logs.  The result is the store after the pass and the
  lines written by \<open>console.error\<close>.  \<open>f\<close> gives the faults of the first query.
\<close>

definition cronJob :: "faults \<Rightarrow> (oid \<Rightarrow> faults) \<Rightarrow> Date \<Rightarrow> store \<Rightarrow> store \<times> string list" where
  "cronJob f G now s =
    (case f ReservationFind of Some err \<Rightarrow> (s, [''Error updating car statuses: '' @ err]) | None \<Rightarrow>
     (let reservations' = filter (expired now) (reservations s) in
      case forEach G now reservations' s of
        (Some err, s1) \<Rightarrow> (s1, [''Error updating car statuses: '' @ err])
      | (None, s1) \<Rightarrow> (s1, [])))"

definition no_faults_at :: "oid \<Rightarrow> faults" where
  "no_faults_at k = no_faults"

text \<open>
  The iteration for \<open>r\<close> makes no \<open>car.save()\<close> that validation rejects: the car is gone,
  or a reservation on it covers \<open>now\<close>, or the car passes the schema.
\<close>

definition save_accepted :: "Date \<Rightarrow> store \<Rightarrow> Reservation \<Rightarrow> bool" where
  "save_accepted now s r =
     (case Car_findById (carId r) s of
        None \<Rightarrow> True
      | Some car \<Rightarrow>
         filter (overlapping (carId r) now) (reservations s) \<noteq> [] \<or> CarSchema_valid car)"

section \<open>Example data\<close>

text \<open>
  The scenario of the specification: one car, one reservation from 2024-01-01 to
  2024-01-05 (UTC) at a cost of 200, and its statistics record.
\<close>

definition car_ex :: Car where
  "car_ex = \<lparr>car_id = 1, car_make = ''Skoda'', carModel = ''Octavia'', year = ''2020'',
     car_status = Available, dailyRate = Some 50, imageUrl = ''uploads/octavia.png'',
     description = ''Family car'', fuelType = ''diesel'', transmission = ''manual'',
     mileage = ''45000'', vehicleSize = ''medium''\<rparr>"

definition res_ex :: Reservation where
  "res_ex = \<lparr>res_id = 1, carId = 1, userId = 7, startDate = 1704067200000,
     endDate = 1704412800000, res_status = Pending, totalCost = 200\<rparr>"

definition stat_ex :: Statistics where
  "stat_ex = \<lparr>stat_id = 1, date = 1704067200000, revenue = 200, paymentStatus = PayPending,
     reservationId = 1\<rparr>"

definition store_pending :: store where
  "store_pending = \<lparr>cars = [car_ex], reservations = [res_ex], statistics = [stat_ex], writes = 0\<rparr>"

text \<open>The same store after approval, before any reservation, and with the statistics record lost.\<close>

definition store_confirmed :: store where
  "store_confirmed =
     \<lparr>cars = [car_ex\<lparr>car_status := Reserved\<rparr>],
      reservations = [res_ex\<lparr>res_status := Confirmed\<rparr>],
      statistics = [stat_ex\<lparr>paymentStatus := PayConfirmed\<rparr>], writes = 0\<rparr>"

definition store_no_statistics :: store where
  "store_no_statistics = \<lparr>cars = [car_ex], reservations = [res_ex], statistics = [], writes = 0\<rparr>"

definition store_car_only :: store where
  "store_car_only = \<lparr>cars = [car_ex], reservations = [], statistics = [], writes = 0\<rparr>"

text \<open>
  Stores for the job, run on 2024-01-06: the confirmed reservation has ended; a second
  ended reservation refers to a car that is gone; a third, still pending, covers the
  day of the run on the same car.  \<open>faults_ex\<close> makes \<open>Car.findById\<close> reject while the
  reservation with identity 1 is handled.
\<close>

text \<open>
  The same stores with a car whose description was emptied through the car's \<open>PUT\<close>
  route.
\<close>

definition car_bad :: Car where
  "car_bad = car_ex\<lparr>description := []\<rparr>"

definition store_bad_pending :: store where
  "store_bad_pending =
     \<lparr>cars = [car_bad], reservations = [res_ex], statistics = [stat_ex], writes = 0\<rparr>"


definition now_ex :: Date where
  "now_ex = 1704499200000"

definition res_ended :: Reservation where
  "res_ended = res_ex\<lparr>res_status := Confirmed\<rparr>"

definition res_orphan :: Reservation where
  "res_orphan = \<lparr>res_id = 2, carId = 2, userId = 8, startDate = 1703980800000,
     endDate = 1704240000000, res_status = Confirmed, totalCost = 90\<rparr>"

definition res_current :: Reservation where
  "res_current = \<lparr>res_id = 3, carId = 1, userId = 9, startDate = 1704456000000,
     endDate = 1704672000000, res_status = Pending, totalCost = 150\<rparr>"

definition store_due :: store where
  "store_due =
     \<lparr>cars = [car_ex\<lparr>car_status := Reserved\<rparr>], reservations = [res_ended, res_orphan],
      statistics = [stat_ex\<lparr>paymentStatus := PayConfirmed\<rparr>], writes = 0\<rparr>"

definition store_overlap :: store where
  "store_overlap =
     \<lparr>cars = [car_ex\<lparr>car_status := Reserved\<rparr>], reservations = [res_ended, res_current],
      statistics = [stat_ex\<lparr>paymentStatus := PayConfirmed\<rparr>], writes = 0\<rparr>"

definition faults_ex :: "oid \<Rightarrow> faults" where
  "faults_ex k =
     (if k = 1 then (\<lambda>c. if c = CarFindById then Some ''connection lost'' else None)
      else no_faults)"

section \<open>Facts about the store operations\<close>

lemmas ex_defs = store_due_def store_overlap_def res_ended_def res_orphan_def res_current_def
  res_ex_def car_ex_def stat_ex_def now_ex_def

lemma find_holds: "List.find p xs = Some x \<Longrightarrow> p x"
  by (induction xs) (auto split: if_splits)

lemma find_updateOne_same:
  "(\<And>x. p x \<Longrightarrow> p (g x)) \<Longrightarrow> List.find p (updateOne p g xs) = map_option g (List.find p xs)"
  by (induction xs) auto

lemma find_updateOne_key:
  "distinct (map key xs) \<Longrightarrow> List.find q xs = Some x \<Longrightarrow> (\<And>y. q (g y) = q y) \<Longrightarrow>
   List.find q (updateOne (\<lambda>d. key d = key x) g xs) = Some (g x)"
proof (induction xs)
  case Nil
  then show ?case by simp
next
  case (Cons h xs)
  show ?case
  proof (cases "q h")
    case True
    with Cons.prems show ?thesis by simp
  next
    case False
    with Cons.prems have fx: "List.find q xs = Some x" by simp
    then have "x \<in> set xs" by (auto simp: find_Some_iff)
    with Cons.prems(1) have "key h \<noteq> key x" by auto
    with False Cons fx show ?thesis by simp
  qed
qed

lemma deleteOne_updateOne:
  "(\<And>x. p x \<Longrightarrow> p (g x)) \<Longrightarrow> deleteOne p (updateOne p g xs) = deleteOne p xs"
  by (induction xs) auto

lemma find_deleteOne_key:
  "distinct (map key xs) \<Longrightarrow> List.find (\<lambda>d. key d = k) (deleteOne (\<lambda>d. key d = k) xs) = None"
proof (induction xs)
  case Nil
  then show ?case by simp
next
  case (Cons h xs)
  show ?case
  proof (cases "key h = k")
    case True
    with Cons.prems have "\<forall>y\<in>set xs. key y \<noteq> k" by (metis distinct.simps(2) imageI list.simps(9) set_map)
    with True show ?thesis by (simp add: find_None_iff)
  next
    case False
    with Cons show ?thesis by simp
  qed
qed

lemma deleteOne_remove1:
  "List.find p xs = Some x \<Longrightarrow> deleteOne p xs = remove1 x xs"
proof (induction xs)
  case Nil
  then show ?case by simp
next
  case (Cons h xs)
  from Cons.prems have "p x" by (rule find_holds)
  with Cons show ?case by (auto split: if_splits)
qed

lemma deleteOne_none:
  "List.find p xs = None \<Longrightarrow> deleteOne p xs = xs"
  by (induction xs) (auto split: if_splits)

lemma find_res_id: "Reservation_findById k s = Some r \<Longrightarrow> res_id r = k \<and> r \<in> set (reservations s)"
  by (auto simp: Reservation_findById_def findOne_def find_Some_iff)

lemma find_car_id: "Car_findById k s = Some c \<Longrightarrow> car_id c = k \<and> c \<in> set (cars s)"
  by (auto simp: Car_findById_def findOne_def find_Some_iff)

lemma CarSchema_valid_status [simp]:
  "CarSchema_valid (c\<lparr>car_status := v\<rparr>) = CarSchema_valid c"
  by (simp add: CarSchema_valid_def)

lemma approve_ok:
  assumes "Reservation_findById rid s = Some r" "res_status r = Pending"
    "Car_findById (carId r) s = Some c" "car_status c = Available" "CarSchema_valid c"
  shows "approve no_faults rid s =
    (Response 200 (Message ''Reservation approved successfully'' (r\<lparr>res_status := Confirmed\<rparr>)),
     Car_set_status (carId r) Reserved
       (case Statistics_findOne rid s of
          None \<Rightarrow> Reservation_save_status rid Confirmed s
        | Some x \<Rightarrow> Statistics_save_paymentStatus (stat_id x) PayConfirmed (Reservation_save_status rid Confirmed s)))"
  using assms find_res_id[OF assms(1)] find_car_id[OF assms(3)]
  by (simp add: approve_def no_faults_def Let_def Statistics_findOne_def Reservation_save_status_def
      Car_save_def split: option.splits)

lemma approve_invalid_car:
  assumes "Reservation_findById rid s = Some r" "res_status r = Pending"
    "Car_findById (carId r) s = Some c" "car_status c = Available" "\<not> CarSchema_valid c"
  shows "approve no_faults rid s =
    (Response 500 (Error ''Car validation failed''),
     case Statistics_findOne rid s of
       None \<Rightarrow> Reservation_save_status rid Confirmed s
     | Some x \<Rightarrow> Statistics_save_paymentStatus (stat_id x) PayConfirmed (Reservation_save_status rid Confirmed s))"
  using assms find_res_id[OF assms(1)] find_car_id[OF assms(3)]
  by (simp add: approve_def no_faults_def Let_def Statistics_findOne_def Reservation_save_status_def
      Car_save_def split: option.splits)

lemma Reservation_findById_save:
  "Reservation_findById k (Reservation_save_status k v s) =
     map_option (\<lambda>d. d\<lparr>res_status := v\<rparr>) (Reservation_findById k s)"
  by (simp add: Reservation_findById_def Reservation_save_status_def findOne_def find_updateOne_same)

lemma Car_findById_save:
  "Car_findById k (Car_set_status k v s) =
     map_option (\<lambda>d. d\<lparr>car_status := v\<rparr>) (Car_findById k s)"
  by (simp add: Car_findById_def Car_set_status_def findOne_def find_updateOne_same)

lemma Statistics_findOne_save:
  assumes "distinct (map stat_id (statistics s))" "Statistics_findOne rid s = Some x"
  shows "Statistics_findOne rid (Statistics_save_paymentStatus (stat_id x) v s) =
     Some (x\<lparr>paymentStatus := v\<rparr>)"
  using assms
  by (simp add: Statistics_findOne_def Statistics_save_paymentStatus_def findOne_def find_updateOne_key)

lemma frames [simp]:
  "cars (Reservation_save_status k v s) = cars s"
  "statistics (Reservation_save_status k v s) = statistics s"
  "cars (Statistics_save_paymentStatus k' w s) = cars s"
  "reservations (Statistics_save_paymentStatus k' w s) = reservations s"
  "reservations (Car_set_status k'' u s) = reservations s"
  "statistics (Car_set_status k'' u s) = statistics s"
  "cars (Reservation_deleteOne k s) = cars s"
  "statistics (Reservation_deleteOne k s) = statistics s"
  "cars (Statistics_deleteOne k s) = cars s"
  "reservations (Statistics_deleteOne k s) = reservations s"
  "cars (Reservation_insert r s) = cars s"
  "statistics (Reservation_insert r s) = statistics s"
  "cars (Statistics_insert x s) = cars s"
  "reservations (Statistics_insert x s) = reservations s"
  by (simp_all add: Reservation_save_status_def Statistics_save_paymentStatus_def Car_set_status_def
      Reservation_deleteOne_def Statistics_deleteOne_def Reservation_insert_def Statistics_insert_def)

lemma find_frames [simp]:
  "Car_findById k (Reservation_save_status k1 v s) = Car_findById k s"
  "Car_findById k (Statistics_save_paymentStatus k2 w s) = Car_findById k s"
  "Reservation_findById k (Statistics_save_paymentStatus k2 w s) = Reservation_findById k s"
  "Reservation_findById k (Car_set_status k3 u s) = Reservation_findById k s"
  "Statistics_findOne k (Reservation_save_status k1 v s) = Statistics_findOne k s"
  "Statistics_findOne k (Car_set_status k3 u s) = Statistics_findOne k s"
  by (simp_all add: Car_findById_def Reservation_findById_def Statistics_findOne_def)

section \<open>Approve\<close>

text \<open>
  Claim C1, as stated, fails: for a pending reservation whose car exists, is available
  and has an empty description, \<open>car.save()\<close> rejects; \<open>approve\<close> answers 500 after the
  reservation has been stored as confirmed, and the car is still available.
\<close>

theorem approve_invalid_car_counterexample:
  "Reservation_findById 1 store_bad_pending = Some res_ex \<and> res_status res_ex = Pending \<and>
   Car_findById (carId res_ex) store_bad_pending = Some car_bad \<and> car_status car_bad = Available \<and>
   status (fst (approve no_faults 1 store_bad_pending)) = 500 \<and>
   Car_findById (carId res_ex) (snd (approve no_faults 1 store_bad_pending)) = Some car_bad \<and>
   Reservation_findById 1 (snd (approve no_faults 1 store_bad_pending)) =
     Some (res_ex\<lparr>res_status := Confirmed\<rparr>)"
proof -
  have h1: "Reservation_findById 1 store_bad_pending = Some res_ex"
    by (simp add: store_bad_pending_def Reservation_findById_def findOne_def res_ex_def)
  have h2: "res_status res_ex = Pending" by (simp add: res_ex_def)
  have h3: "Car_findById (carId res_ex) store_bad_pending = Some car_bad"
    by (simp add: store_bad_pending_def Car_findById_def findOne_def res_ex_def car_bad_def car_ex_def)
  have h4: "car_status car_bad = Available" by (simp add: car_bad_def car_ex_def)
  have h5: "\<not> CarSchema_valid car_bad" by (simp add: CarSchema_valid_def car_bad_def)
  have h6: "Statistics_findOne 1 store_bad_pending = Some stat_ex"
    by (simp add: store_bad_pending_def Statistics_findOne_def findOne_def stat_ex_def)
  note a = approve_invalid_car [OF h1 h2 h3 h4 h5, unfolded h6 option.case]
  have b: "status (fst (approve no_faults 1 store_bad_pending)) = 500"
    unfolding a by simp
  have c: "Car_findById (carId res_ex) (snd (approve no_faults 1 store_bad_pending)) = Some car_bad"
    unfolding a using h3 by simp
  have d: "Reservation_findById 1 (snd (approve no_faults 1 store_bad_pending)) =
     Some (res_ex\<lparr>res_status := Confirmed\<rparr>)"
    unfolding a using h1 by (simp add: Reservation_findById_save)
  show ?thesis by (intro conjI) (rule h1 h2 h3 h4 b c d)+
qed

text \<open>
  Claim C1, amended.  When the reservation is pending and its car exists, is available
  and passes the validators of the car schema, \<open>approve\<close> answers 200, the stored
  reservation becomes confirmed, the car becomes reserved, and the statistics record
  linked by \<open>reservationId\<close> gets \<open>paymentStatus = confirmed\<close>; when there is no such
  statistics record the statistics collection is left as it was and the request still
  succeeds.
\<close>

theorem approve_pending_available:
  assumes "distinct (map stat_id (statistics s))"
    and "Reservation_findById rid s = Some r" and "res_status r = Pending"
    and "Car_findById (carId r) s = Some c" and "car_status c = Available"
    and "CarSchema_valid c"
  shows "status (fst (approve no_faults rid s)) = 200 \<and>
    Reservation_findById rid (snd (approve no_faults rid s)) = Some (r\<lparr>res_status := Confirmed\<rparr>) \<and>
    Car_findById (carId r) (snd (approve no_faults rid s)) = Some (c\<lparr>car_status := Reserved\<rparr>) \<and>
    (case Statistics_findOne rid s of
       None \<Rightarrow> statistics (snd (approve no_faults rid s)) = statistics s
     | Some x \<Rightarrow>
         Statistics_findOne rid (snd (approve no_faults rid s)) = Some (x\<lparr>paymentStatus := PayConfirmed\<rparr>))"
proof -
  let ?s1 = "Reservation_save_status rid Confirmed s"
  note ok = approve_ok [OF assms(2-6)]
  have st: "status (fst (approve no_faults rid s)) = 200"
    by (simp add: ok)
  have res: "Reservation_findById rid (snd (approve no_faults rid s)) = Some (r\<lparr>res_status := Confirmed\<rparr>)"
    by (cases "Statistics_findOne rid s") (simp_all add: ok Reservation_findById_save assms(2))
  have car: "Car_findById (carId r) (snd (approve no_faults rid s)) = Some (c\<lparr>car_status := Reserved\<rparr>)"
    by (cases "Statistics_findOne rid s") (simp_all add: ok Car_findById_save assms(4))
  have stat: "(case Statistics_findOne rid s of
       None \<Rightarrow> statistics (snd (approve no_faults rid s)) = statistics s
     | Some x \<Rightarrow>
         Statistics_findOne rid (snd (approve no_faults rid s)) = Some (x\<lparr>paymentStatus := PayConfirmed\<rparr>))"
  proof (cases "Statistics_findOne rid s")
    case None
    then show ?thesis by (simp add: ok)
  next
    case (Some x)
    have d: "distinct (map stat_id (statistics ?s1))" using assms(1) by simp
    have f: "Statistics_findOne rid ?s1 = Some x" using Some by simp
    have "Statistics_findOne rid (Statistics_save_paymentStatus (stat_id x) PayConfirmed ?s1)
        = Some (x\<lparr>paymentStatus := PayConfirmed\<rparr>)"
      by (rule Statistics_findOne_save [OF d f])
    then show ?thesis using Some by (simp add: ok)
  qed
  from st res car stat show ?thesis by blast
qed

theorem approve_pending_available_witness:
  "distinct (map stat_id (statistics store_pending)) \<and>
   Reservation_findById 1 store_pending = Some res_ex \<and> res_status res_ex = Pending \<and>
   Car_findById (carId res_ex) store_pending = Some car_ex \<and> car_status car_ex = Available \<and>
   CarSchema_valid car_ex \<and>
   status (fst (approve no_faults 1 store_pending)) = 200 \<and>
   Reservation_findById 1 (snd (approve no_faults 1 store_pending)) = Some (res_ex\<lparr>res_status := Confirmed\<rparr>) \<and>
   Car_findById 1 (snd (approve no_faults 1 store_pending)) = Some (car_ex\<lparr>car_status := Reserved\<rparr>) \<and>
   Statistics_findOne 1 (snd (approve no_faults 1 store_pending)) = Some (stat_ex\<lparr>paymentStatus := PayConfirmed\<rparr>)"
proof -
  have h1: "distinct (map stat_id (statistics store_pending))"
    by (simp add: store_pending_def)
  have h2: "Reservation_findById 1 store_pending = Some res_ex"
    by (simp add: store_pending_def Reservation_findById_def findOne_def res_ex_def)
  have h3: "res_status res_ex = Pending" by (simp add: res_ex_def)
  have h4: "Car_findById (carId res_ex) store_pending = Some car_ex"
    by (simp add: store_pending_def Car_findById_def findOne_def res_ex_def car_ex_def)
  have h5: "car_status car_ex = Available" by (simp add: car_ex_def)
  have h6: "Statistics_findOne 1 store_pending = Some stat_ex"
    by (simp add: store_pending_def Statistics_findOne_def findOne_def stat_ex_def)
  have h7: "CarSchema_valid car_ex" by (simp add: CarSchema_valid_def car_ex_def)
  have c: "carId res_ex = 1" by (simp add: res_ex_def)
  show ?thesis
    using approve_pending_available [OF h1 h2 h3 h4 h5 h7] h1 h2 h3 h4 h5 h6 h7 c by simp
qed

lemma approve_refused:
  assumes "Reservation_findById rid s = Some r" "Car_findById (carId r) s = Some c"
    "\<not> (res_status r = Pending \<and> car_status c = Available)"
  shows "status (fst (approve no_faults rid s)) = 400 \<and> snd (approve no_faults rid s) = s"
  using assms by (auto simp: approve_def no_faults_def)

lemma approve_200_only:
  assumes "Reservation_findById rid s = Some r" "Car_findById (carId r) s = Some c"
    "status (fst (approve f rid s)) = 200"
  shows "res_status r = Pending \<and> car_status c = Available"
proof (rule ccontr)
  assume n: "\<not> (res_status r = Pending \<and> car_status c = Available)"
  have "status (fst (approve f rid s)) \<noteq> 200"
    using assms(1,2) n by (auto simp: approve_def split: option.splits)
  with assms(3) show False by simp
qed

text \<open>
  Claim C2.  For a reservation and a car that both exist, \<open>approve\<close> answers 200 only
  when the reservation is pending and the car is available (whatever store calls reject),
  and does so when no store call rejects and the car passes its schema; for every other
  combination of the two status fields it answers 400 (InvalidState) and returns the
  store as it was: no record is changed and no write call is made.
\<close>

theorem approve_only_pending_available:
  assumes "Reservation_findById rid s = Some r" and "Car_findById (carId r) s = Some c"
  shows "(status (fst (approve f rid s)) = 200 \<longrightarrow>
            res_status r = Pending \<and> car_status c = Available) \<and>
         (res_status r = Pending \<and> car_status c = Available \<and> CarSchema_valid c \<longrightarrow>
            status (fst (approve no_faults rid s)) = 200) \<and>
         (\<not> (res_status r = Pending \<and> car_status c = Available) \<longrightarrow>
            status (fst (approve no_faults rid s)) = 400 \<and> snd (approve no_faults rid s) = s)"
proof (intro conjI impI)
  assume "status (fst (approve f rid s)) = 200"
  with assms have "res_status r = Pending \<and> car_status c = Available"
    by (rule approve_200_only)
  then show "res_status r = Pending" and "car_status c = Available" by simp_all
next
  assume "res_status r = Pending \<and> car_status c = Available \<and> CarSchema_valid c"
  then show "status (fst (approve no_faults rid s)) = 200"
    using approve_ok [OF assms(1) _ assms(2)] by simp
next
  assume n: "\<not> (res_status r = Pending \<and> car_status c = Available)"
  from approve_refused [OF assms n]
  show "status (fst (approve no_faults rid s)) = 400" and "snd (approve no_faults rid s) = s"
    by simp_all
qed

theorem approve_only_pending_available_witness:
  "Reservation_findById 1 store_confirmed = Some (res_ex\<lparr>res_status := Confirmed\<rparr>) \<and>
   Car_findById 1 store_confirmed = Some (car_ex\<lparr>car_status := Reserved\<rparr>) \<and>
   status (fst (approve no_faults 1 store_confirmed)) \<noteq> 200 \<and>
   status (fst (approve no_faults 1 store_confirmed)) = 400 \<and>
   snd (approve no_faults 1 store_confirmed) = store_confirmed"
proof -
  have h1: "Reservation_findById 1 store_confirmed = Some (res_ex\<lparr>res_status := Confirmed\<rparr>)"
    by (simp add: store_confirmed_def Reservation_findById_def findOne_def res_ex_def)
  have h2: "Car_findById (carId (res_ex\<lparr>res_status := Confirmed\<rparr>)) store_confirmed
              = Some (car_ex\<lparr>car_status := Reserved\<rparr>)"
    by (simp add: store_confirmed_def Car_findById_def findOne_def res_ex_def car_ex_def)
  have c: "carId (res_ex\<lparr>res_status := Confirmed\<rparr>) = 1" by (simp add: res_ex_def)
  show ?thesis
    using approve_only_pending_available [OF h1 h2, of no_faults] h1 h2 c by simp
qed

section \<open>Create\<close>

lemma foldr_max_ge: "x \<in> set ids \<Longrightarrow> x \<le> foldr max ids (0::nat)"
  by (induction ids) (auto simp: max_def)

lemma new_oid_fresh: "new_oid ids \<notin> set ids"
proof
  assume "new_oid ids \<in> set ids"
  then have "new_oid ids \<le> foldr max ids 0" by (rule foldr_max_ge)
  then show False by (simp add: new_oid_def)
qed

lemma reservationDate_day:
  "reservationDate d \<le> d \<and> d < reservationDate d + msPerDay \<and> reservationDate d mod msPerDay = 0"
proof -
  have p: "(0::int) < msPerDay" by (simp add: msPerDay_def)
  have "d = (d div msPerDay) * msPerDay + d mod msPerDay" by simp
  moreover have "0 \<le> d mod msPerDay" "d mod msPerDay < msPerDay" using p by simp_all
  ultimately have "reservationDate d \<le> d" "d < reservationDate d + msPerDay"
    unfolding reservationDate_def by linarith+
  moreover have "reservationDate d mod msPerDay = 0" by (simp add: reservationDate_def)
  ultimately show ?thesis by simp
qed

lemma create_ok:
  assumes "Car_findById cid s = Some c"
  shows "create no_faults uid cid sd ed tc s =
    (Response 201
       (Message ''Reservation request created successfully. Waiting for admin approval.''
          \<lparr>res_id = new_oid (map res_id (reservations s)), carId = cid, userId = uid,
            startDate = sd, endDate = ed, res_status = Pending, totalCost = tc\<rparr>),
     s\<lparr>reservations := reservations s @
          [\<lparr>res_id = new_oid (map res_id (reservations s)), carId = cid, userId = uid,
            startDate = sd, endDate = ed, res_status = Pending, totalCost = tc\<rparr>],
       statistics := statistics s @
          [\<lparr>stat_id = new_oid (map stat_id (statistics s)), date = reservationDate sd,
            revenue = tc, paymentStatus = PayPending,
            reservationId = new_oid (map res_id (reservations s))\<rparr>],
       writes := Suc (Suc (writes s))\<rparr>)"
  using assms
  by (simp add: create_def no_faults_def Let_def Reservation_insert_def Statistics_insert_def)


text \<open>
  Claim C3.  When the car exists, \<open>create\<close> answers 201 and appends exactly one
  reservation and exactly one statistics record, both under identities not used before;
  the reservation is pending and carries the request's fields, the statistics record has
  \<open>revenue = totalCost\<close>, \<open>paymentStatus = pending\<close>, the new reservation's identity as
  \<open>reservationId\<close>, and as \<open>date\<close> the midnight (UTC) that starts the day of
  \<open>startDate\<close>; the cars are not touched.
\<close>

theorem create_one_reservation_one_statistics:
  assumes "Car_findById cid s = Some c"
  shows "\<exists>r x.
    status (fst (create no_faults uid cid sd ed tc s)) = 201 \<and>
    body (fst (create no_faults uid cid sd ed tc s)) =
      Message ''Reservation request created successfully. Waiting for admin approval.'' r \<and>
    reservations (snd (create no_faults uid cid sd ed tc s)) = reservations s @ [r] \<and>
    statistics (snd (create no_faults uid cid sd ed tc s)) = statistics s @ [x] \<and>
    cars (snd (create no_faults uid cid sd ed tc s)) = cars s \<and>
    res_id r \<notin> set (map res_id (reservations s)) \<and>
    stat_id x \<notin> set (map stat_id (statistics s)) \<and>
    res_status r = Pending \<and> carId r = cid \<and> userId r = uid \<and> startDate r = sd \<and>
    endDate r = ed \<and> totalCost r = tc \<and>
    reservationId x = res_id r \<and> revenue x = tc \<and> paymentStatus x = PayPending \<and>
    date x = reservationDate sd \<and>
    date x \<le> sd \<and> sd < date x + msPerDay \<and> date x mod msPerDay = 0"
proof -
  let ?r = "\<lparr>res_id = new_oid (map res_id (reservations s)), carId = cid, userId = uid,
            startDate = sd, endDate = ed, res_status = Pending, totalCost = tc\<rparr>"
  let ?x = "\<lparr>stat_id = new_oid (map stat_id (statistics s)), date = reservationDate sd,
            revenue = tc, paymentStatus = PayPending,
            reservationId = new_oid (map res_id (reservations s))\<rparr>"
  note ok = create_ok [OF assms, of uid sd ed tc]
  have a: "status (fst (create no_faults uid cid sd ed tc s)) = 201"
    by (simp add: ok)
  have b: "body (fst (create no_faults uid cid sd ed tc s)) =
      Message ''Reservation request created successfully. Waiting for admin approval.'' ?r"
    by (simp add: ok)
  have c: "reservations (snd (create no_faults uid cid sd ed tc s)) = reservations s @ [?r]"
    by (simp add: ok)
  have d: "statistics (snd (create no_faults uid cid sd ed tc s)) = statistics s @ [?x]"
    by (simp add: ok)
  have e: "cars (snd (create no_faults uid cid sd ed tc s)) = cars s"
    by (simp add: ok)
  have f: "res_id ?r \<notin> set (map res_id (reservations s))"
    using new_oid_fresh [of "map res_id (reservations s)"] by simp
  have g: "stat_id ?x \<notin> set (map stat_id (statistics s))"
    using new_oid_fresh [of "map stat_id (statistics s)"] by simp
  have h: "res_status ?r = Pending" "carId ?r = cid" "userId ?r = uid" "startDate ?r = sd"
    "endDate ?r = ed" "totalCost ?r = tc" by simp_all
  have i: "reservationId ?x = res_id ?r" "revenue ?x = tc" "paymentStatus ?x = PayPending"
    "date ?x = reservationDate sd" by simp_all
  have j: "date ?x \<le> sd" "sd < date ?x + msPerDay" "date ?x mod msPerDay = 0"
    using reservationDate_day [of sd] by simp_all
  show ?thesis
    by (rule exI [of _ ?r], rule exI [of _ ?x], intro conjI) (rule a b c d e f g h i j)+
qed

theorem create_one_reservation_one_statistics_witness:
  "Car_findById 1 store_car_only = Some car_ex \<and>
   (\<exists>r x.
      status (fst (create no_faults 7 1 1704105000000 1704412800000 200 store_car_only)) = 201 \<and>
      reservations (snd (create no_faults 7 1 1704105000000 1704412800000 200 store_car_only)) = [r] \<and>
      statistics (snd (create no_faults 7 1 1704105000000 1704412800000 200 store_car_only)) = [x] \<and>
      cars (snd (create no_faults 7 1 1704105000000 1704412800000 200 store_car_only)) = [car_ex] \<and>
      res_status r = Pending \<and> totalCost r = 200 \<and>
      reservationId x = res_id r \<and> revenue x = 200 \<and> paymentStatus x = PayPending \<and>
      date x = 1704067200000)"
proof -
  have h: "Car_findById 1 store_car_only = Some car_ex"
    by (simp add: store_car_only_def Car_findById_def findOne_def car_ex_def)
  have d: "reservationDate 1704105000000 = 1704067200000"
    by (simp add: reservationDate_def msPerDay_def)
  have e: "reservations store_car_only = []" "statistics store_car_only = []"
    "cars store_car_only = [car_ex]"
    by (simp_all add: store_car_only_def)
  from create_one_reservation_one_statistics [OF h, of 7 1704105000000 1704412800000 200]
  obtain r x where
    "status (fst (create no_faults 7 1 1704105000000 1704412800000 200 store_car_only)) = 201"
    "reservations (snd (create no_faults 7 1 1704105000000 1704412800000 200 store_car_only)) = [r]"
    "statistics (snd (create no_faults 7 1 1704105000000 1704412800000 200 store_car_only)) = [x]"
    "cars (snd (create no_faults 7 1 1704105000000 1704412800000 200 store_car_only)) = [car_ex]"
    "res_status r = Pending" "totalCost r = 200"
    "reservationId x = res_id r" "revenue x = 200" "paymentStatus x = PayPending"
    "date x = 1704067200000"
    unfolding d e by auto
  then show ?thesis using h by blast
qed

section \<open>Reject\<close>

lemma reject_pending:
  assumes "Reservation_findById rid s = Some r" "res_status r = Pending"
  shows "reject no_faults rid s =
    (if Statistics_findOne rid s = None
     then Response 404 (Error ''No statistics found for this reservation'')
     else Response 200 (Message ''Reservation rejected successfully'' (r\<lparr>res_status := Cancelled\<rparr>)),
     s\<lparr>reservations := deleteOne (\<lambda>d. res_id d = rid) (reservations s),
       statistics := deleteOne (\<lambda>d. reservationId d = rid) (statistics s),
       writes := Suc (Suc (Suc (writes s)))\<rparr>)"
  using assms find_res_id [OF assms(1)]
  by (simp add: reject_def no_faults_def Let_def Reservation_save_status_def Reservation_deleteOne_def
      Statistics_deleteOne_def deletedCount_def Statistics_findOne_def findOne_def deleteOne_updateOne
      split: option.splits)

lemma reject_missing:
  "Reservation_findById rid s = None \<Longrightarrow>
   reject no_faults rid s = (Response 404 (Error ''Reservation not found''), s)"
  by (simp add: reject_def no_faults_def)

lemma reject_not_pending:
  "Reservation_findById rid s = Some r \<Longrightarrow> res_status r \<noteq> Pending \<Longrightarrow>
   reject no_faults rid s = (Response 400 (Error ''Only pending reservations can be rejected''), s)"
  by (simp add: reject_def no_faults_def)

lemma Reservation_findById_deleted:
  "distinct (map res_id (reservations s)) \<Longrightarrow>
   Reservation_findById rid (s\<lparr>reservations := deleteOne (\<lambda>d. res_id d = rid) (reservations s),
       statistics := xs, writes := n\<rparr>) = None"
  by (simp add: Reservation_findById_def findOne_def find_deleteOne_key)

lemma distinct_map_remove1: "distinct (map key xs) \<Longrightarrow> x \<notin> set (remove1 x xs)"
  by (simp add: distinct_map)

text \<open>
  Claim C8.  For a pending reservation with a linked statistics record, \<open>reject\<close>
  answers 200, removes exactly that reservation and exactly that statistics record,
  leaves the cars as they were, and a second \<open>reject\<close> with the same identity answers
  404 (NotFound).
\<close>

theorem reject_removes_both:
  assumes "distinct (map res_id (reservations s))" and "distinct (map stat_id (statistics s))"
    and "Reservation_findById rid s = Some r" and "res_status r = Pending"
    and "Statistics_findOne rid s = Some x"
  shows "status (fst (reject no_faults rid s)) = 200 \<and>
    reservations (snd (reject no_faults rid s)) = remove1 r (reservations s) \<and>
    Reservation_findById rid (snd (reject no_faults rid s)) = None \<and>
    statistics (snd (reject no_faults rid s)) = remove1 x (statistics s) \<and>
    x \<notin> set (statistics (snd (reject no_faults rid s))) \<and>
    cars (snd (reject no_faults rid s)) = cars s \<and>
    status (fst (reject no_faults rid (snd (reject no_faults rid s)))) = 404"
proof -
  note rp = reject_pending [OF assms(3,4)]
  have r1: "deleteOne (\<lambda>d. res_id d = rid) (reservations s) = remove1 r (reservations s)"
    using assms(3) by (simp add: Reservation_findById_def findOne_def deleteOne_remove1)
  have x1: "deleteOne (\<lambda>d. reservationId d = rid) (statistics s) = remove1 x (statistics s)"
    using assms(5) by (simp add: Statistics_findOne_def findOne_def deleteOne_remove1)
  have a: "status (fst (reject no_faults rid s)) = 200"
    using assms(5) by (simp add: rp)
  have b: "reservations (snd (reject no_faults rid s)) = remove1 r (reservations s)"
    by (simp add: rp r1)
  have c: "Reservation_findById rid (snd (reject no_faults rid s)) = None"
    by (simp add: rp Reservation_findById_deleted [OF assms(1)])
  have d: "statistics (snd (reject no_faults rid s)) = remove1 x (statistics s)"
    by (simp add: rp x1)
  have e: "x \<notin> set (statistics (snd (reject no_faults rid s)))"
    unfolding d using assms(2) by (rule distinct_map_remove1)
  have f: "cars (snd (reject no_faults rid s)) = cars s"
    by (simp add: rp)
  have g: "status (fst (reject no_faults rid (snd (reject no_faults rid s)))) = 404"
    by (simp add: reject_missing [OF c])
  show ?thesis by (intro conjI) (rule a b c d e f g)+
qed

theorem reject_removes_both_witness:
  "distinct (map res_id (reservations store_pending)) \<and>
   distinct (map stat_id (statistics store_pending)) \<and>
   Reservation_findById 1 store_pending = Some res_ex \<and> res_status res_ex = Pending \<and>
   Statistics_findOne 1 store_pending = Some stat_ex \<and>
   status (fst (reject no_faults 1 store_pending)) = 200 \<and>
   reservations (snd (reject no_faults 1 store_pending)) = [] \<and>
   statistics (snd (reject no_faults 1 store_pending)) = [] \<and>
   cars (snd (reject no_faults 1 store_pending)) = [car_ex] \<and>
   status (fst (reject no_faults 1 (snd (reject no_faults 1 store_pending)))) = 404"
proof -
  have h1: "distinct (map res_id (reservations store_pending))"
    by (simp add: store_pending_def)
  have h2: "distinct (map stat_id (statistics store_pending))"
    by (simp add: store_pending_def)
  have h3: "Reservation_findById 1 store_pending = Some res_ex"
    by (simp add: store_pending_def Reservation_findById_def findOne_def res_ex_def)
  have h4: "res_status res_ex = Pending" by (simp add: res_ex_def)
  have h5: "Statistics_findOne 1 store_pending = Some stat_ex"
    by (simp add: store_pending_def Statistics_findOne_def findOne_def stat_ex_def)
  have e: "reservations store_pending = [res_ex]" "statistics store_pending = [stat_ex]"
    "cars store_pending = [car_ex]"
    by (simp_all add: store_pending_def)
  show ?thesis
    using reject_removes_both [OF h1 h2 h3 h4 h5] h1 h2 h3 h4 h5 by (simp add: e)
qed

text \<open>
  Claim C9, as stated, fails: for a reservation that exists and is not pending,
  \<open>reject\<close> answers 400, not 404.
\<close>

theorem reject_not_pending_counterexample:
  "Reservation_findById 1 store_confirmed = Some (res_ex\<lparr>res_status := Confirmed\<rparr>) \<and>
   res_status (res_ex\<lparr>res_status := Confirmed\<rparr>) \<noteq> Pending \<and>
   status (fst (reject no_faults 1 store_confirmed)) = 400 \<and>
   status (fst (reject no_faults 1 store_confirmed)) \<noteq> 404"
  by (simp add: reject_def no_faults_def store_confirmed_def Reservation_findById_def findOne_def
      res_ex_def)

text \<open>
  Claim C9, amended.  \<open>reject\<close> answers 404 (NotFound) in exactly two cases: the
  reservation does not exist, or it is pending and no statistics record carries its
  identity; in the second case the caller receives the error
  "No statistics found for this reservation".  It answers 400 (InvalidState) exactly when
  the reservation exists and is not pending.
\<close>

theorem reject_not_found_cases:
  "(status (fst (reject no_faults rid s)) = 404 \<longleftrightarrow>
      Reservation_findById rid s = None \<or>
      (\<exists>r. Reservation_findById rid s = Some r \<and> res_status r = Pending \<and>
           Statistics_findOne rid s = None)) \<and>
   (status (fst (reject no_faults rid s)) = 400 \<longleftrightarrow>
      (\<exists>r. Reservation_findById rid s = Some r \<and> res_status r \<noteq> Pending)) \<and>
   ((\<exists>r. Reservation_findById rid s = Some r \<and> res_status r = Pending) \<and>
      Statistics_findOne rid s = None \<longrightarrow>
      fst (reject no_faults rid s) = Response 404 (Error ''No statistics found for this reservation''))"
proof (cases "Reservation_findById rid s")
  case None
  then show ?thesis by (simp add: reject_missing)
next
  case (Some r)
  show ?thesis
  proof (cases "res_status r = Pending")
    case True
    with Some show ?thesis by (simp add: reject_pending)
  next
    case False
    with Some show ?thesis by (simp add: reject_not_pending)
  qed
qed

theorem reject_not_found_cases_witness:
  "Reservation_findById 1 store_no_statistics = Some res_ex \<and> res_status res_ex = Pending \<and>
   Statistics_findOne 1 store_no_statistics = None \<and>
   status (fst (reject no_faults 1 store_no_statistics)) = 404 \<and>
   fst (reject no_faults 1 store_no_statistics) =
     Response 404 (Error ''No statistics found for this reservation'')"
proof -
  have h1: "Reservation_findById 1 store_no_statistics = Some res_ex"
    by (simp add: store_no_statistics_def Reservation_findById_def findOne_def res_ex_def)
  have h2: "res_status res_ex = Pending" by (simp add: res_ex_def)
  have h3: "Statistics_findOne 1 store_no_statistics = None"
    by (simp add: store_no_statistics_def Statistics_findOne_def findOne_def)
  show ?thesis
    using reject_not_found_cases [of 1 store_no_statistics] h1 h2 h3 by simp
qed

text \<open>
  Claim C10.  For a pending reservation without a linked statistics record, \<open>reject\<close>
  answers 404 and the store it leaves behind no longer holds the reservation: the error
  is reported after the deletion, and the store is not the one the request started from.
\<close>

theorem reject_not_atomic:
  assumes "distinct (map res_id (reservations s))"
    and "Reservation_findById rid s = Some r" and "res_status r = Pending"
    and "Statistics_findOne rid s = None"
  shows "fst (reject no_faults rid s) =
      Response 404 (Error ''No statistics found for this reservation'') \<and>
    reservations (snd (reject no_faults rid s)) = remove1 r (reservations s) \<and>
    Reservation_findById rid (snd (reject no_faults rid s)) = None \<and>
    snd (reject no_faults rid s) \<noteq> s"
proof -
  note rp = reject_pending [OF assms(2,3)]
  have r1: "deleteOne (\<lambda>d. res_id d = rid) (reservations s) = remove1 r (reservations s)"
    using assms(2) by (simp add: Reservation_findById_def findOne_def deleteOne_remove1)
  have a: "fst (reject no_faults rid s) =
      Response 404 (Error ''No statistics found for this reservation'')"
    using assms(4) by (simp add: rp)
  have b: "reservations (snd (reject no_faults rid s)) = remove1 r (reservations s)"
    by (simp add: rp r1)
  have c: "Reservation_findById rid (snd (reject no_faults rid s)) = None"
    by (simp add: rp Reservation_findById_deleted [OF assms(1)])
  have d: "snd (reject no_faults rid s) \<noteq> s"
    using c assms(2) by auto
  show ?thesis by (intro conjI) (rule a b c d)+
qed

theorem reject_not_atomic_witness:
  "distinct (map res_id (reservations store_no_statistics)) \<and>
   Reservation_findById 1 store_no_statistics = Some res_ex \<and> res_status res_ex = Pending \<and>
   Statistics_findOne 1 store_no_statistics = None \<and>
   fst (reject no_faults 1 store_no_statistics) =
     Response 404 (Error ''No statistics found for this reservation'') \<and>
   reservations (snd (reject no_faults 1 store_no_statistics)) = [] \<and>
   Reservation_findById 1 (snd (reject no_faults 1 store_no_statistics)) = None \<and>
   snd (reject no_faults 1 store_no_statistics) \<noteq> store_no_statistics"
proof -
  have h0: "distinct (map res_id (reservations store_no_statistics))"
    by (simp add: store_no_statistics_def)
  have h1: "Reservation_findById 1 store_no_statistics = Some res_ex"
    by (simp add: store_no_statistics_def Reservation_findById_def findOne_def res_ex_def)
  have h2: "res_status res_ex = Pending" by (simp add: res_ex_def)
  have h3: "Statistics_findOne 1 store_no_statistics = None"
    by (simp add: store_no_statistics_def Statistics_findOne_def findOne_def)
  have e: "reservations store_no_statistics = [res_ex]"
    by (simp add: store_no_statistics_def)
  show ?thesis
    using reject_not_atomic [OF h0 h1 h2 h3] h0 h1 h2 h3 by (simp add: e)
qed

section \<open>The reconciliation pass\<close>

lemma updateOne_distinct:
  "distinct (map key xs) \<Longrightarrow>
   updateOne (\<lambda>d. key d = k) g xs = map (\<lambda>d. if key d = k then g d else d) xs"
proof (induction xs)
  case Nil
  then show ?case by simp
next
  case (Cons h xs)
  show ?case
  proof (cases "key h = k")
    case True
    with Cons.prems have "\<forall>y\<in>set xs. key y \<noteq> k"
      by (metis distinct.simps(2) imageI list.simps(9) set_map)
    then have "map (\<lambda>d. if key d = k then g d else d) xs = xs"
      by (simp add: map_idI)
    with True show ?thesis by simp
  next
    case False
    with Cons show ?thesis by simp
  qed
qed

lemma map_key_updateOne:
  "(\<And>x. key (g x) = key x) \<Longrightarrow> map key (updateOne p g xs) = map key xs"
  by (induction xs) auto

lemma find_updateOne_other:
  "(\<And>x. key (g x) = key x) \<Longrightarrow> k \<noteq> k' \<Longrightarrow>
   List.find (\<lambda>d. key d = k) (updateOne (\<lambda>d. key d = k') g xs) = List.find (\<lambda>d. key d = k) xs"
  by (induction xs) auto


lemma fold_complete_distinct:
  "distinct (map res_id xs) \<Longrightarrow>
   fold (\<lambda>r. updateOne (\<lambda>d. res_id d = res_id r) (\<lambda>d. d\<lparr>res_status := Completed\<rparr>)) rs xs =
   map (\<lambda>d. if res_id d \<in> res_id ` set rs then d\<lparr>res_status := Completed\<rparr> else d) xs"
proof (induction rs arbitrary: xs)
  case Nil
  then show ?case by simp
next
  case (Cons r rs)
  let ?c = "\<lambda>d. d\<lparr>res_status := Completed\<rparr>"
  let ?xs1 = "updateOne (\<lambda>d. res_id d = res_id r) ?c xs"
  have d1: "distinct (map res_id ?xs1)"
    using Cons.prems by (simp add: map_key_updateOne)
  have e1: "?xs1 = map (\<lambda>d. if res_id d = res_id r then ?c d else d) xs"
    using Cons.prems by (rule updateOne_distinct)
  have "fold (\<lambda>r. updateOne (\<lambda>d. res_id d = res_id r) ?c) (r # rs) xs =
        map (\<lambda>d. if res_id d \<in> res_id ` set rs then ?c d else d) ?xs1"
    using Cons.IH [OF d1] by simp
  also have "\<dots> = map (\<lambda>d. if res_id d \<in> res_id ` set (r # rs) then ?c d else d) xs"
    unfolding e1 by (rule list.map_cong0 [THEN trans [OF list.map_comp]]) auto
  finally show ?case .
qed

lemma find_map_key:
  assumes "distinct (map key xs)" "x \<in> set xs" "\<And>y. key (g y) = key y"
  shows "List.find (\<lambda>d. key d = key x) (map g xs) = Some (g x)"
  using assms(1,2)
proof (induction xs)
  case Nil
  then show ?case by simp
next
  case (Cons h xs)
  show ?case
  proof (cases "h = x")
    case True
    then show ?thesis by (simp add: assms(3))
  next
    case False
    with Cons.prems have x: "x \<in> set xs" by simp
    with Cons.prems(1) have "key h \<noteq> key x" by auto
    with Cons x show ?thesis by (simp add: assms(3))
  qed
qed


text \<open>The loop body: what a finished iteration has done, and when an iteration finishes.\<close>

lemma releaseCar_ok:
  assumes "releaseCar g now r s = (None, s1)"
  shows "s1 = (if Car_findById (carId r) s \<noteq> None \<and>
                  filter (overlapping (carId r) now) (reservations s) = []
               then Car_set_status (carId r) Available s else s)"
proof (cases "Car_findById (carId r) s")
  case None
  with assms show ?thesis by (simp add: releaseCar_def split: option.splits)
next
  case (Some c)
  then have "car_id c = carId r" by (simp add: find_car_id)
  with assms Some show ?thesis
    by (auto simp: releaseCar_def Car_save_def Let_def split: option.splits if_splits)
qed


lemma releaseCar_rejected:
  assumes "\<not> save_accepted now s r"
  shows "releaseCar no_faults now r s = (Some ''Car validation failed'', s)"
proof (cases "Car_findById (carId r) s")
  case None
  with assms show ?thesis by (simp add: save_accepted_def)
next
  case (Some c)
  then have "car_id c = carId r" by (simp add: find_car_id)
  with assms Some show ?thesis
    by (auto simp: releaseCar_def Car_save_def Let_def no_faults_def save_accepted_def)
qed

lemma processReservation_ok:
  assumes "processReservation g now r s = (None, s1)"
  shows "s1 = Reservation_save_status (res_id r) Completed
       (if Car_findById (carId r) s \<noteq> None \<and> filter (overlapping (carId r) now) (reservations s) = []
        then Car_set_status (carId r) Available s else s)"
proof -
  obtain e s0 where q: "releaseCar g now r s = (e, s0)" by (cases "releaseCar g now r s")
  with assms have e: "e = None" and g: "g ReservationSave = None"
    and s1: "s1 = Reservation_save_status (res_id r) Completed s0"
    by (auto simp: processReservation_def split: option.splits)
  from q e have "releaseCar g now r s = (None, s0)" by simp
  then have "s0 = (if Car_findById (carId r) s \<noteq> None \<and>
                  filter (overlapping (carId r) now) (reservations s) = []
               then Car_set_status (carId r) Available s else s)"
    by (rule releaseCar_ok)
  with s1 show ?thesis by simp
qed


lemma processReservation_rejected:
  assumes "\<not> save_accepted now s r"
  shows "processReservation no_faults now r s = (Some ''Car validation failed'', s)"
  by (simp add: processReservation_def releaseCar_rejected [OF assms])

lemma releaseCar_reservations:
  "reservations (snd (releaseCar g now r s)) = reservations s"
  by (simp add: releaseCar_def Car_save_def Let_def split: option.splits)

lemma processReservation_reservations:
  "reservations (snd (processReservation g now r s)) = reservations s \<or>
   reservations (snd (processReservation g now r s)) =
     updateOne (\<lambda>d. res_id d = res_id r) (\<lambda>d. d\<lparr>res_status := Completed\<rparr>) (reservations s)"
proof -
  obtain e s0 where q: "releaseCar g now r s = (e, s0)" by (cases "releaseCar g now r s")
  then have "reservations s0 = reservations s"
    using releaseCar_reservations [of g now r s] by simp
  with q show ?thesis
    by (cases e; cases "g ReservationSave")
       (simp_all add: processReservation_def Reservation_save_status_def)
qed



lemma forEach_ok_reservations:
  "forEach G now rs s = (None, s1) \<Longrightarrow>
   reservations s1 =
   fold (\<lambda>r. updateOne (\<lambda>d. res_id d = res_id r) (\<lambda>d. d\<lparr>res_status := Completed\<rparr>)) rs (reservations s)"
proof (induction rs arbitrary: s)
  case Nil
  then show ?case by simp
next
  case (Cons r rs)
  obtain e s' where q: "processReservation (G (res_id r)) now r s = (e, s')"
    by (cases "processReservation (G (res_id r)) now r s")
  with Cons.prems have e: "e = None" by (cases e) simp_all
  with q Cons.prems have f: "forEach G now rs s' = (None, s1)" by simp
  from q e have p: "processReservation (G (res_id r)) now r s = (None, s')" by simp
  have "reservations s' =
      updateOne (\<lambda>d. res_id d = res_id r) (\<lambda>d. d\<lparr>res_status := Completed\<rparr>) (reservations s)"
    unfolding processReservation_ok [OF p] by (simp add: Reservation_save_status_def)
  with Cons.IH [OF f] show ?case by simp
qed





lemma cronJob_ok:
  assumes "snd (cronJob f G now s) = []"
  shows "forEach G now (filter (expired now) (reservations s)) s = (None, fst (cronJob f G now s))"
proof -
  from assms have f: "f ReservationFind = None"
    by (cases "f ReservationFind") (simp_all add: cronJob_def)
  obtain e s1 where p: "forEach G now (filter (expired now) (reservations s)) s = (e, s1)"
    by (cases "forEach G now (filter (expired now) (reservations s)) s")
  with assms f have e: "e = None" by (cases e) (simp_all add: cronJob_def Let_def)
  with p f show ?thesis by (simp add: cronJob_def Let_def)
qed

lemma cronJob_ok_reservations:
  assumes "distinct (map res_id (reservations s))" and "snd (cronJob f G now s) = []"
  shows "reservations (fst (cronJob f G now s)) =
     map (\<lambda>d. if expired now d then d\<lparr>res_status := Completed\<rparr> else d) (reservations s)"
proof -
  have inj: "inj_on res_id (set (reservations s))"
    using assms(1) by (simp add: distinct_map)
  have "reservations (fst (cronJob f G now s)) =
     map (\<lambda>d. if res_id d \<in> res_id ` set (filter (expired now) (reservations s))
               then d\<lparr>res_status := Completed\<rparr> else d) (reservations s)"
    using forEach_ok_reservations [OF cronJob_ok [OF assms(2)]]
    by (simp add: fold_complete_distinct [OF assms(1)])
  also have "\<dots> = map (\<lambda>d. if expired now d then d\<lparr>res_status := Completed\<rparr> else d) (reservations s)"
  proof (rule map_cong [OF refl])
    fix d assume d: "d \<in> set (reservations s)"
    have "res_id d \<in> res_id ` set (filter (expired now) (reservations s)) \<longleftrightarrow> expired now d"
      using d inj by (auto dest: inj_onD)
    then show "(if res_id d \<in> res_id ` set (filter (expired now) (reservations s))
               then d\<lparr>res_status := Completed\<rparr> else d) =
          (if expired now d then d\<lparr>res_status := Completed\<rparr> else d)" by simp
  qed
  finally show ?thesis .
qed












lemma cronJob_nothing_expired:
  assumes "filter (expired now) (reservations s) = []"
  shows "fst (cronJob f G now s) = s" and "cronJob no_faults no_faults_at now s = (s, [])"
  using assms by (simp_all add: cronJob_def no_faults_def Let_def split: option.splits)

lemma cronJob_store_due:
  "cronJob no_faults no_faults_at now_ex store_due =
     (\<lparr>cars = [car_ex\<lparr>car_status := Available\<rparr>],
       reservations = [res_ended\<lparr>res_status := Completed\<rparr>, res_orphan\<lparr>res_status := Completed\<rparr>],
       statistics = [stat_ex\<lparr>paymentStatus := PayConfirmed\<rparr>], writes = 3\<rparr>, [])"
  by (simp add: cronJob_def no_faults_def no_faults_at_def expired_def overlapping_def
      processReservation_def releaseCar_def Car_findById_def findOne_def Car_set_status_def
      Car_save_def CarSchema_valid_def
      Reservation_save_status_def ex_defs)

text \<open>
  Claim C6.  If a pass at time \<open>now\<close> ends without logging an error, then a second
  pass at the same time on the store it left selects no reservation and returns that
  store unchanged, write counter included, whatever store calls would reject.
\<close>

theorem reconcile_idempotent:
  assumes "distinct (map res_id (reservations s))" and "snd (cronJob f G now s) = []"
  shows "filter (expired now) (reservations (fst (cronJob f G now s))) = [] \<and>
         cronJob no_faults no_faults_at now (fst (cronJob f G now s)) = (fst (cronJob f G now s), []) \<and>
         fst (cronJob f' G' now (fst (cronJob f G now s))) = fst (cronJob f G now s)"
proof -
  have a: "filter (expired now) (reservations (fst (cronJob f G now s))) = []"
    by (auto simp: cronJob_ok_reservations [OF assms] filter_empty_conv expired_def)
  from a have b: "cronJob no_faults no_faults_at now (fst (cronJob f G now s)) = (fst (cronJob f G now s), [])"
    by (rule cronJob_nothing_expired(2))
  from a have c: "fst (cronJob f' G' now (fst (cronJob f G now s))) = fst (cronJob f G now s)"
    by (rule cronJob_nothing_expired(1))
  show ?thesis by (intro conjI) (rule a b c)+
qed

theorem reconcile_idempotent_witness:
  "distinct (map res_id (reservations store_due)) \<and>
   snd (cronJob no_faults no_faults_at now_ex store_due) = [] \<and>
   filter (expired now_ex) (reservations (fst (cronJob no_faults no_faults_at now_ex store_due))) = [] \<and>
   cronJob no_faults no_faults_at now_ex (fst (cronJob no_faults no_faults_at now_ex store_due)) =
     (fst (cronJob no_faults no_faults_at now_ex store_due), []) \<and>
   writes (fst (cronJob no_faults no_faults_at now_ex store_due)) = 3 \<and>
   writes (fst (cronJob no_faults no_faults_at now_ex
                  (fst (cronJob no_faults no_faults_at now_ex store_due)))) = 3"
proof -
  have h1: "distinct (map res_id (reservations store_due))" by (simp add: ex_defs)
  have h2: "snd (cronJob no_faults no_faults_at now_ex store_due) = []"
    by (simp add: cronJob_store_due)
  have w: "writes (fst (cronJob no_faults no_faults_at now_ex store_due)) = 3"
    by (simp add: cronJob_store_due)
  note t = reconcile_idempotent [OF h1 h2, of no_faults no_faults_at]
  from t have w2: "writes (fst (cronJob no_faults no_faults_at now_ex
                  (fst (cronJob no_faults no_faults_at now_ex store_due)))) = 3"
    using w by simp
  from t h1 h2 w w2 show ?thesis by simp
qed

text \<open>
  Claim C7, as stated, fails: when \<open>Car.findById\<close> rejects for the first selected
  reservation, the error is logged, and the second selected reservation, which a pass
  without faults completes, is still confirmed afterwards.
\<close>

theorem reconcile_error_counterexample:
  "res_orphan \<in> set (filter (expired now_ex) (reservations store_due)) \<and>
   faults_ex (res_id res_orphan) = no_faults \<and>
   cronJob no_faults faults_ex now_ex store_due =
     (store_due, [''Error updating car statuses: connection lost'']) \<and>
   Reservation_findById (res_id res_orphan) (fst (cronJob no_faults faults_ex now_ex store_due)) =
     Some res_orphan \<and>
   res_status res_orphan = Confirmed \<and>
   Reservation_findById (res_id res_orphan) (fst (cronJob no_faults no_faults_at now_ex store_due)) =
     Some (res_orphan\<lparr>res_status := Completed\<rparr>)"
proof -
  have a: "res_orphan \<in> set (filter (expired now_ex) (reservations store_due))"
    by (simp add: expired_def ex_defs)
  have b: "faults_ex (res_id res_orphan) = no_faults"
    by (simp add: faults_ex_def ex_defs)
  have c: "cronJob no_faults faults_ex now_ex store_due =
     (store_due, [''Error updating car statuses: connection lost''])"
    by (simp add: cronJob_def no_faults_def faults_ex_def expired_def processReservation_def
        releaseCar_def ex_defs)
  have d: "Reservation_findById (res_id res_orphan) store_due = Some res_orphan"
    by (simp add: Reservation_findById_def findOne_def ex_defs)
  have e: "res_status res_orphan = Confirmed" by (simp add: ex_defs)
  have f: "Reservation_findById (res_id res_orphan) (fst (cronJob no_faults no_faults_at now_ex store_due)) =
     Some (res_orphan\<lparr>res_status := Completed\<rparr>)"
    by (simp add: cronJob_store_due) (simp add: Reservation_findById_def findOne_def ex_defs)
  show ?thesis
    unfolding c fst_conv by (intro conjI) (rule a b d e f refl)+
qed

lemma forEach_abort:
  "forEach G now pre s = (None, s0) \<Longrightarrow>
   processReservation (G (res_id r)) now r s0 = (Some err, s1) \<Longrightarrow>
   forEach G now (pre @ r # post) s = (Some err, s1)"
proof (induction pre arbitrary: s)
  case Nil
  then show ?case by simp
next
  case (Cons p pre)
  obtain e s' where q: "processReservation (G (res_id p)) now p s = (e, s')"
    by (cases "processReservation (G (res_id p)) now p s")
  with Cons.prems(1) have e: "e = None" by (cases e) simp_all
  with q Cons.prems(1) have "forEach G now pre s' = (None, s0)" by simp
  then have "forEach G now (pre @ r # post) s' = (Some err, s1)"
    using Cons.prems(2) by (rule Cons.IH)
  with q e show ?case by simp
qed

lemma processReservation_other:
  assumes "k \<noteq> res_id r"
  shows "Reservation_findById k (snd (processReservation g now r s)) = Reservation_findById k s"
  using processReservation_reservations [of g now r s] assms
  by (auto simp: Reservation_findById_def findOne_def find_updateOne_other)

lemma forEach_other:
  "k \<notin> res_id ` set rs \<Longrightarrow>
   Reservation_findById k (snd (forEach G now rs s)) = Reservation_findById k s"
proof (induction rs arbitrary: s)
  case Nil
  then show ?case by simp
next
  case (Cons r rs)
  obtain e s' where q: "processReservation (G (res_id r)) now r s = (e, s')"
    by (cases "processReservation (G (res_id r)) now r s")
  from Cons.prems have k: "k \<noteq> res_id r" "k \<notin> res_id ` set rs" by auto
  have s': "Reservation_findById k s' = Reservation_findById k s"
    using processReservation_other [OF k(1), of "G (res_id r)" now s] q by simp
  show ?case
  proof (cases e)
    case None
    with q s' Cons.IH [OF k(2), of s'] show ?thesis by simp
  next
    case (Some err)
    with q s' show ?thesis by simp
  qed
qed

lemma Reservation_findById_member:
  assumes "distinct (map res_id (reservations s))" "q \<in> set (reservations s)"
  shows "Reservation_findById (res_id q) s = Some q"
  using find_map_key [OF assms, of "\<lambda>x. x"]
  by (simp add: Reservation_findById_def findOne_def)

text \<open>
  Claim C7, amended.  An error raised while one reservation is handled is caught and
  logged, and it ends the pass: the pass returns the store as it was when the error was
  raised, and every reservation selected after the failing one is still stored as it
  was, confirmed and ended.
\<close>

theorem reconcile_error_ends_pass:
  assumes "distinct (map res_id (reservations s))"
    and "f ReservationFind = None"
    and "filter (expired now) (reservations s) = pre @ r # post"
    and "forEach G now pre s = (None, s0)"
    and "processReservation (G (res_id r)) now r s0 = (Some err, s1)"
  shows "cronJob f G now s = (s1, [''Error updating car statuses: '' @ err]) \<and>
         (\<forall>q\<in>set post. Reservation_findById (res_id q) s1 = Some q \<and>
             res_status q = Confirmed \<and> endDate q < now)"
proof -
  have ab: "forEach G now (pre @ r # post) s = (Some err, s1)"
    using assms(4,5) by (rule forEach_abort)
  have a: "cronJob f G now s = (s1, [''Error updating car statuses: '' @ err])"
    using assms(2,3) ab by (simp add: cronJob_def Let_def)
  have d: "distinct (map res_id (pre @ r # post))"
    using assms(1) distinct_map_filter [of res_id "reservations s" "expired now"]
    by (simp only: assms(3))
  have b: "\<forall>q\<in>set post. Reservation_findById (res_id q) s1 = Some q \<and>
             res_status q = Confirmed \<and> endDate q < now"
  proof
    fix q assume q: "q \<in> set post"
    then have "q \<in> set (filter (expired now) (reservations s))"
      by (simp add: assms(3))
    then have m: "q \<in> set (reservations s)" and e: "expired now q" by simp_all
    from q have qi: "res_id q \<in> res_id ` set post" by (rule imageI)
    from d have d1: "res_id r \<notin> res_id ` set post"
      and d2: "res_id ` set pre \<inter> res_id ` set post = {}"
      by simp_all
    have n1: "res_id q \<noteq> res_id r"
    proof
      assume "res_id q = res_id r"
      with qi have "res_id r \<in> res_id ` set post" by simp
      with d1 show False by simp
    qed
    have n2: "res_id q \<notin> res_id ` set pre"
    proof
      assume "res_id q \<in> res_id ` set pre"
      then have "res_id q \<in> res_id ` set pre \<inter> res_id ` set post" using qi by (rule IntI)
      with d2 show False by simp
    qed
    have "Reservation_findById (res_id q) s1 = Reservation_findById (res_id q) s0"
      using processReservation_other [OF n1, of "G (res_id r)" now s0] assms(5) by simp
    also have "\<dots> = Reservation_findById (res_id q) s"
      using forEach_other [OF n2, of G now s] assms(4) by simp
    also have "\<dots> = Some q"
      using assms(1) m by (rule Reservation_findById_member)
    finally show "Reservation_findById (res_id q) s1 = Some q \<and>
             res_status q = Confirmed \<and> endDate q < now"
      using e by (simp add: expired_def)
  qed
  show ?thesis using a b by (rule conjI)
qed

theorem reconcile_error_ends_pass_witness:
  "distinct (map res_id (reservations store_due)) \<and>
   no_faults ReservationFind = None \<and>
   filter (expired now_ex) (reservations store_due) = [] @ res_ended # [res_orphan] \<and>
   forEach faults_ex now_ex [] store_due = (None, store_due) \<and>
   processReservation (faults_ex (res_id res_ended)) now_ex res_ended store_due =
     (Some ''connection lost'', store_due) \<and>
   cronJob no_faults faults_ex now_ex store_due =
     (store_due, [''Error updating car statuses: '' @ ''connection lost'']) \<and>
   Reservation_findById (res_id res_orphan) store_due = Some res_orphan \<and>
   res_status res_orphan = Confirmed \<and> endDate res_orphan < now_ex"
proof -
  have h1: "distinct (map res_id (reservations store_due))" by (simp add: ex_defs)
  have h2: "no_faults ReservationFind = None" by (simp add: no_faults_def)
  have h3: "filter (expired now_ex) (reservations store_due) = [] @ res_ended # [res_orphan]"
    by (simp add: expired_def ex_defs)
  have h4: "forEach faults_ex now_ex [] store_due = (None, store_due)" by simp
  have h5: "processReservation (faults_ex (res_id res_ended)) now_ex res_ended store_due =
     (Some ''connection lost'', store_due)"
    by (simp add: processReservation_def releaseCar_def faults_ex_def ex_defs)
  note t = reconcile_error_ends_pass [of store_due no_faults now_ex "[]" res_ended "[res_orphan]"
      faults_ex store_due "''connection lost''" store_due, OF h1 h2 h3 h4 h5]
  from t have a: "cronJob no_faults faults_ex now_ex store_due =
     (store_due, [''Error updating car statuses: '' @ ''connection lost''])" by (rule conjunct1)
  from t have "\<forall>q\<in>set [res_orphan]. Reservation_findById (res_id q) store_due = Some q \<and>
             res_status q = Confirmed \<and> endDate q < now_ex" by (rule conjunct2)
  then have b: "Reservation_findById (res_id res_orphan) store_due = Some res_orphan"
    "res_status res_orphan = Confirmed" "endDate res_orphan < now_ex" by simp_all
  show ?thesis
    by (intro conjI) (rule h1 h2 h3 h4 h5 a b)+
qed

section \<open>Unique identifiers are kept\<close>

text \<open>
  The uniqueness of identifiers that several results above assume is an invariant: every
  handler and the job return a store with unique identifiers when they start from one,
  whatever store calls reject.
\<close>

lemma set_deleteOne: "set (deleteOne p xs) \<subseteq> set xs"
  by (induction xs) auto

lemma map_key_deleteOne_distinct:
  "distinct (map key xs) \<Longrightarrow> distinct (map key (deleteOne p xs))"
proof (induction xs)
  case Nil
  then show ?case by simp
next
  case (Cons h xs)
  have "key ` set (deleteOne p xs) \<subseteq> key ` set xs"
    using set_deleteOne [of p xs] by (rule image_mono)
  with Cons show ?case by auto
qed

lemma unique_ids_save [simp]:
  "unique_ids (Reservation_save_status k v s) = unique_ids s"
  "unique_ids (Car_set_status k' u s) = unique_ids s"
  "unique_ids (Statistics_save_paymentStatus k'' w s) = unique_ids s"
  by (simp_all add: unique_ids_def Reservation_save_status_def Car_set_status_def
      Statistics_save_paymentStatus_def map_key_updateOne)

lemma unique_ids_delete:
  "unique_ids s \<Longrightarrow> unique_ids (Reservation_deleteOne k s)"
  "unique_ids s \<Longrightarrow> unique_ids (Statistics_deleteOne k s)"
  by (simp_all add: unique_ids_def Reservation_deleteOne_def Statistics_deleteOne_def
      map_key_deleteOne_distinct)

lemma unique_ids_insert:
  "unique_ids s \<Longrightarrow> res_id r = new_oid (map res_id (reservations s)) \<Longrightarrow>
     unique_ids (Reservation_insert r s)"
  "unique_ids s \<Longrightarrow> stat_id x = new_oid (map stat_id (statistics s)) \<Longrightarrow>
     unique_ids (Statistics_insert x s)"
  using new_oid_fresh [of "map res_id (reservations s)"] new_oid_fresh [of "map stat_id (statistics s)"]
  by (simp_all add: unique_ids_def Reservation_insert_def Statistics_insert_def)

lemma create_unique_ids: "unique_ids s \<Longrightarrow> unique_ids (snd (create f uid cid sd ed tc s))"
  by (simp add: create_def Let_def unique_ids_insert split: option.splits)

lemma approve_unique_ids: "unique_ids s \<Longrightarrow> unique_ids (snd (approve f rid s))"
  by (simp add: approve_def Car_save_def Let_def split: option.splits)

lemma reject_unique_ids: "unique_ids s \<Longrightarrow> unique_ids (snd (reject f rid s))"
  by (simp add: reject_def Let_def unique_ids_delete split: option.splits)

lemma releaseCar_unique_ids: "unique_ids (snd (releaseCar g now r s)) = unique_ids s"
  by (simp add: releaseCar_def Car_save_def Let_def split: option.splits)

lemma processReservation_unique_ids: "unique_ids (snd (processReservation g now r s)) = unique_ids s"
proof -
  obtain e s0 where q: "releaseCar g now r s = (e, s0)" by (cases "releaseCar g now r s")
  then have "unique_ids s0 = unique_ids s"
    using releaseCar_unique_ids [of g now r s] by simp
  with q show ?thesis
    by (cases e; cases "g ReservationSave") (simp_all add: processReservation_def)
qed

lemma forEach_unique_ids: "unique_ids (snd (forEach G now rs s)) = unique_ids s"
proof (induction rs arbitrary: s)
  case Nil
  then show ?case by simp
next
  case (Cons r rs)
  obtain e s' where q: "processReservation (G (res_id r)) now r s = (e, s')"
    by (cases "processReservation (G (res_id r)) now r s")
  then have "unique_ids s' = unique_ids s"
    using processReservation_unique_ids [of "G (res_id r)" now r s] by simp
  with q Cons.IH [of s'] show ?case by (cases e) simp_all
qed

lemma cronJob_unique_ids: "unique_ids (fst (cronJob f G now s)) = unique_ids s"
proof -
  obtain e s' where q: "forEach G now (filter (expired now) (reservations s)) s = (e, s')"
    by (cases "forEach G now (filter (expired now) (reservations s)) s")
  then have "unique_ids s' = unique_ids s"
    using forEach_unique_ids [of G now "filter (expired now) (reservations s)" s] by simp
  with q show ?thesis
    by (cases e; cases "f ReservationFind") (simp_all add: cronJob_def Let_def)
qed

end
